theory Spec2Isabelle
  imports Main "HOL-Library.Word" "HOL-Library.Sublist"
begin

unbundle bit_operations_syntax

section \<open>QLoggerWriter: the data model\<close>

subsection \<open>Enumerations of the logger\<close>

text \<open>
  Modelled from the spec: the header declaring the enumerations \<open>LogLevel\<close>, \<open>LogMode\<close>,
  \<open>LogFileDisplay\<close> and \<open>LogMessageDisplay\<close> is not among the sources. The severities are
  the six that \<open>levelToText\<close> switches on, ordered from \<open>Trace\<close> (lowest) to \<open>Fatal\<close>; the
  modes are the four of the writer configuration; the display flags are single bits of an
  unsigned 32-bit mask, and the default composite is the set of fields of the fixed layout
  \<open>[Level][Module][Timestamp][ThreadId]{File:Line} Message\<close>.
\<close>

datatype LogLevel = Trace | Debug | Info | Warning | Error | Fatal

fun levelValue :: "LogLevel \<Rightarrow> nat" where
  "levelValue Trace = 0"
| "levelValue Debug = 1"
| "levelValue Info = 2"
| "levelValue Warning = 3"
| "levelValue Error = 4"
| "levelValue Fatal = 5"

datatype LogMode = Disabled | OnlyConsole | OnlyFile | Full

datatype LogFileDisplay = DateTime | Number

datatype LogMessageDisplay =
    LogLevel | ModuleName | DateTime | ThreadId | Function | File | Line | Message
  | Default | Default2 | Full

type_synonym LogMessageDisplays = "32 word"

fun flagValue :: "LogMessageDisplay \<Rightarrow> LogMessageDisplays" where
  "flagValue LogMessageDisplay.LogLevel = 1"
| "flagValue ModuleName = 2"
| "flagValue LogMessageDisplay.DateTime = 4"
| "flagValue ThreadId = 8"
| "flagValue Function = 16"
| "flagValue File = 32"
| "flagValue Line = 64"
| "flagValue Message = 128"
| "flagValue Default = 1 OR 2 OR 4 OR 8 OR 32 OR 64 OR 128"
| "flagValue Default2 = 1 OR 2 OR 4 OR 8 OR 32 OR 16 OR 128"
| "flagValue LogMessageDisplay.Full = 255"

text \<open>
  \<open>QFlags::testFlag\<close>: every bit of the flag is set in the mask; the zero flag is only
  contained in the zero mask.
\<close>

definition testFlag :: "LogMessageDisplays \<Rightarrow> LogMessageDisplay \<Rightarrow> bool" where
  "testFlag i f \<longleftrightarrow> (i AND flagValue f) = flagValue f \<and> (flagValue f \<noteq> 0 \<or> i = flagValue f)"

subsection \<open>Qt strings\<close>

text \<open>
  A \<open>QString\<close> is a list of characters. \<open>QString::arg\<close> with several arguments replaces
  the place markers \<open>%1\<close>, \<open>%2\<close>, ... of the pattern in one pass, and every pattern of the
  writer is a literal, so a formatted text is the concatenation of the literal pieces and
  the arguments.

  \<open>QString::number\<close> of an \<open>int\<close>: decimal digits, a minus sign for negative values.
\<close>

definition digit :: "nat \<Rightarrow> char" where
  "digit d = ''0123456789'' ! d"

fun dec :: "nat \<Rightarrow> string" where
  "dec n = (if n < 10 then [digit n] else dec (n div 10) @ [digit (n mod 10)])"

declare dec.simps [simp del]

definition number :: "int \<Rightarrow> string" where
  "number n = (if n < 0 then ''-'' @ dec (nat (- n)) else dec (nat n))"

text \<open>
  \<open>QString::insert(i, s)\<close>: a negative position leaves the string as it is, a position past
  the end pads with spaces first.
\<close>

definition insertAt :: "int \<Rightarrow> string \<Rightarrow> string \<Rightarrow> string" where
  "insertAt i s str =
     (if i < 0 \<or> s = [] then str
      else if int (length str) < i then str @ replicate (nat i - length str) CHR '' '' @ s
      else take (nat i) str @ s @ drop (nat i) str)"

text \<open>\<open>QString::left(n)\<close>, \<open>QString::right(n)\<close>, \<open>QString::mid(pos)\<close>, \<open>QString::mid(pos, n)\<close>.\<close>

definition left :: "int \<Rightarrow> string \<Rightarrow> string" where
  "left n str = (if n < 0 \<or> int (length str) \<le> n then str else take (nat n) str)"

definition right :: "int \<Rightarrow> string \<Rightarrow> string" where
  "right n str =
     (if n < 0 \<or> int (length str) \<le> n then str else drop (length str - nat n) str)"

definition mid :: "int \<Rightarrow> string \<Rightarrow> string" where
  "mid pos str =
     (if int (length str) < pos then [] else drop (nat pos) str)"

definition midLen :: "int \<Rightarrow> int \<Rightarrow> string \<Rightarrow> string" where
  "midLen pos n str =
     (if int (length str) < pos then []
      else take (if n < 0 then length str else nat (n + min pos 0)) (drop (nat pos) str))"

text \<open>\<open>QString::lastIndexOf(c)\<close>: the position of the last occurrence, \<open>-1\<close> when there is none.\<close>

fun lastIndexOf :: "char \<Rightarrow> string \<Rightarrow> int" where
  "lastIndexOf c [] = - 1"
| "lastIndexOf c (x # xs) =
     (let r = lastIndexOf c xs in if 0 \<le> r then r + 1 else if x = c then 0 else - 1)"

definition startsWith :: "char \<Rightarrow> string \<Rightarrow> bool" where
  "startsWith c str \<longleftrightarrow> (case str of [] \<Rightarrow> False | x # _ \<Rightarrow> x = c)"

definition endsWith :: "char \<Rightarrow> string \<Rightarrow> bool" where
  "endsWith c str \<longleftrightarrow> (case rev str of [] \<Rightarrow> False | x # _ \<Rightarrow> x = c)"

subsection \<open>Dates and times\<close>

record QDate =
  year :: nat
  month :: nat
  day :: nat

record QDateTime = QDate +
  hour :: nat
  minute :: nat
  second :: nat
  msec :: nat

text \<open>
  Dates and times are valid ones (an invalid \<open>QDate\<close> prints as the empty string). A
  number field of a Qt date format: decimal digits, padded with zeros to the width.
\<close>

definition pad :: "nat \<Rightarrow> nat \<Rightarrow> string" where
  "pad width n = replicate (width - length (dec n)) CHR ''0'' @ dec n"

text \<open>\<open>QDate::toString("_yyyy_MM_dd")\<close>.\<close>

definition dateSuffix :: "QDate \<Rightarrow> string" where
  "dateSuffix d = ''_'' @ pad 4 (year d) @ ''_'' @ pad 2 (month d) @ ''_'' @ pad 2 (day d)"

text \<open>\<open>QDateTime::toString("yyyy-MM-dd hh:mm:ss:zzz")\<close>.\<close>

definition timestampText :: "QDateTime \<Rightarrow> string" where
  "timestampText t =
     pad 4 (year t) @ ''-'' @ pad 2 (month t) @ ''-'' @ pad 2 (day t) @ '' ''
       @ pad 2 (hour t) @ '':'' @ pad 2 (minute t) @ '':'' @ pad 2 (second t) @ '':''
       @ pad 3 (msec t)"

text \<open>\<open>QDateTime::toString("dd_MM_yy__hh_mm_ss")\<close>.\<close>

definition fullSuffixText :: "QDateTime \<Rightarrow> string" where
  "fullSuffixText t =
     pad 2 (day t) @ ''_'' @ pad 2 (month t) @ ''_'' @ pad 2 (year t mod 100) @ ''__''
       @ pad 2 (hour t) @ ''_'' @ pad 2 (minute t) @ ''_'' @ pad 2 (second t)"

definition dateOf :: "QDateTime \<Rightarrow> QDate" where
  "dateOf t = \<lparr>year = year t, month = month t, day = day t\<rparr>"

subsection \<open>The environment of the writer\<close>

text \<open>
  What the writer sees of the machine it runs on: the files (path and content, a finite
  table), the paths that cannot be opened and those that cannot be renamed (locked, or
  without permission), the lines sent to the console by \<open>qInfo()\<close>, the clock, the commands
  started through \<open>QProcess\<close> and how the archiving command ends.

  The clock is read as \<open>now\<close> (with \<open>nowText\<close>, what \<open>QDateTime::toString()\<close> prints for
  it, and \<open>nowMSecs\<close>, the reading of the elapsed timer). A function reads the clock at its
  entry as it stands; \<open>elapse\<close> lets time pass before each later reading, and moves the
  clock to the next of the readings that \<open>later\<close> lists, which may repeat a time or change
  the day. When no reading is listed the clock stands still.

  \<open>overflowed\<close> records that an \<open>int\<close> of the writer has been counted past \<open>INT_MAX\<close>: the
  behaviour of the program is undefined from there on.
\<close>

record world =
  files :: "(string \<times> string) list"
  noOpen :: "string list"
  noRename :: "string list"
  console :: "string list"
  now :: QDateTime
  nowText :: string
  nowMSecs :: int
  processes :: "(string \<times> string list) list"
  zipFinished :: bool
  zipCrashed :: bool
  zipElapsed :: int
  later :: "(QDateTime \<times> string \<times> int) list"
  overflowed :: bool

definition elapse :: "world \<Rightarrow> world" where
  "elapse w =
     (case later w of
        [] \<Rightarrow> w
      | (t, txt, ms) # rest \<Rightarrow> w\<lparr>now := t, nowText := txt, nowMSecs := ms, later := rest\<rparr>)"

text \<open>\<open>QFileInfo::exists(path)\<close>.\<close>

definition fileExists :: "world \<Rightarrow> string \<Rightarrow> bool" where
  "fileExists w path = (case map_of (files w) path of None \<Rightarrow> False | Some c \<Rightarrow> True)"

text \<open>\<open>QFile::size()\<close> of a file that is not open: the length of its content, 0 when absent.\<close>

definition fileSize :: "world \<Rightarrow> string \<Rightarrow> int" where
  "fileSize w path = (case map_of (files w) path of None \<Rightarrow> 0 | Some c \<Rightarrow> int (length c))"

text \<open>
  \<open>QFile::rename(oldName, newName)\<close>: fails when the old file is missing or cannot be
  renamed, and when the new name is taken (Qt never overwrites); otherwise the content
  moves to the new name.
\<close>

definition renameFile :: "world \<Rightarrow> string \<Rightarrow> string \<Rightarrow> bool \<times> world" where
  "renameFile w oldName newName =
     (case map_of (files w) oldName of
        None \<Rightarrow> (False, w)
      | Some c \<Rightarrow>
          if oldName \<in> set (noRename w) \<or> fileExists w newName then (False, w)
          else (True, w\<lparr>files := (newName, c) # filter (\<lambda>e. fst e \<noteq> oldName) (files w)\<rparr>))"

section \<open>QLoggerWriter: the operations\<close>

subsection \<open>generateDuplicateFilename\<close>

text \<open>
  The function calls itself with the next suffix number while the name is taken. The
  suffix number is an \<open>int\<close> of 32 bits: adding 1 to \<open>INT_MAX\<close> is a signed overflow, whose
  behaviour is undefined, and the result is \<open>None\<close> there. Otherwise the result is the name
  found.
\<close>

definition INT_MAX :: int where
  "INT_MAX = 2147483647"

definition duplicatePath :: "string \<Rightarrow> string \<Rightarrow> int \<Rightarrow> string" where
  "duplicatePath fileDestination fileExtension fileSuffixNumber =
     (if fileSuffixNumber > 1
      then fileDestination @ ''('' @ number fileSuffixNumber @ '').'' @ fileExtension
      else fileDestination @ ''.'' @ fileExtension)"

function generateDuplicateFilename :: "world \<Rightarrow> string \<Rightarrow> string \<Rightarrow> int \<Rightarrow> string option" where
  "generateDuplicateFilename w fileDestination fileExtension fileSuffixNumber =
     (let path = duplicatePath fileDestination fileExtension fileSuffixNumber
      in if fileExists w path
         then (if INT_MAX \<le> fileSuffixNumber then None
               else generateDuplicateFilename w fileDestination fileExtension
                      (fileSuffixNumber + 1))
         else Some path)"
  by pat_completeness auto
termination
  by (relation "measure (\<lambda>(w, d, e, n). nat (INT_MAX - n))") simp_all

declare generateDuplicateFilename.simps [simp del]

subsection \<open>The writer\<close>

text \<open>
  The members of the class that the functions below read or write. The members
  \<open>mMaxFileSize\<close>, \<open>mIsStop\<close>, \<open>writeMSec\<close>, \<open>wakeUpTime\<close> and \<open>currentDate\<close> are declared in
  the header, so their initial values are left to the state. \<open>wakeUpTime\<close> holds the clock
  reading at which the timer was started, and \<open>wakeAlls\<close> counts the signals sent on the
  wait condition \<open>mQueueNotEmpty\<close>.
\<close>

record QLoggerWriter =
  mFileDestination :: string
  mFileSuffixIfFull :: LogFileDisplay
  mMode :: LogMode
  mLevel :: LogLevel
  mMessageOptions :: LogMessageDisplays
  mMaxFileSize :: int
  mMessages :: "string list"
  mQuit :: bool
  mIsStop :: bool
  currentDate :: QDate
  wakeUpTime :: int
  writeMSec :: int
  wakeAlls :: nat

fun levelToText :: "LogLevel \<Rightarrow> string" where
  "levelToText Trace = ''Trace''"
| "levelToText Debug = ''Debug''"
| "levelToText Info = ''Info''"
| "levelToText Warning = ''Warning''"
| "levelToText Error = ''Error''"
| "levelToText Fatal = ''Fatal''"

subsection \<open>zipFileCustom\<close>

definition zipFileCustom :: "string \<Rightarrow> world \<Rightarrow> string \<times> world" where
  "zipFileCustom path w =
     (let archiveName = midLen 0 (int (length path) - 4) path @ ''.7z'';
          param = [''a'', ''-t7z'', ''-mx9'', archiveName, path];
          pathExe = ''7z'';
          w1 = w\<lparr>processes := processes w @ [(pathExe, param)]\<rparr>;
          res = zipFinished w1;
          exitStatus = zipCrashed w1;
          result = path @ '' to archive : '' @ archiveName @ ''. ''
            @ (''finished: '' @ (if res then ''yes'' else ''no'') @ '', ''
                @ (if exitStatus then ''The process crashed''
                   else ''The process exited normall''))
            @ ''. Time::'' @ number (zipElapsed w1)
      in (result, w1))"

subsection \<open>renameFileIfFull\<close>

text \<open>
  The new name of the date-based rotation, and the block that renames the file. The
  result of the block is \<open>Some r\<close> when the block returns \<open>r\<close>
  from the function and \<open>None\<close> when control leaves the block at its end. The clock is
  read again after the rename.
\<close>

definition newNameOf :: "QLoggerWriter \<Rightarrow> string" where
  "newNameOf s =
     insertAt (int (length (mFileDestination s)) - 4) (dateSuffix (currentDate s))
       (mFileDestination s)"

definition dateRotation :: "QLoggerWriter \<Rightarrow> world \<Rightarrow> string option \<times> QLoggerWriter \<times> world" where
  "dateRotation s w =
     (let newName = newNameOf s;
          (renamed, w1) = renameFile w (mFileDestination s) newName
      in if \<not> renamed then (Some [], s, w1)
         else
           let w2 = elapse w1;
               s1 = s\<lparr>currentDate := dateOf (now w2)\<rparr>
           in if mQuit s1 then (Some newName, s1, w2)
              else let (result, w3) = zipFileCustom newName w2 in (Some result, s1, w3))"

text \<open>
  The statements after the block: the rotation of a file that has reached its size. The
  call of \<open>generateDuplicateFilename\<close> leaves the suffix number to its default, which the
  header declares; it is 1 here, the number of the name without a suffix. When the search
  overflows, the machine is marked and the result is of no account.
\<close>

definition sizeRotation :: "QLoggerWriter \<Rightarrow> world \<Rightarrow> string \<times> world" where
  "sizeRotation s w =
     (if mMaxFileSize s \<le> fileSize w (mFileDestination s)
      then
        let fileDestination =
              left (lastIndexOf CHR ''.'' (mFileDestination s)) (mFileDestination s);
            fileExtension =
              mid (lastIndexOf CHR ''.'' (mFileDestination s) + 1) (mFileDestination s);
            (found, w0) =
              (if mFileSuffixIfFull s = LogFileDisplay.DateTime
               then (Some (fileDestination @ ''_'' @ fullSuffixText (now (elapse w)) @ ''.''
                             @ fileExtension), elapse w)
               else (generateDuplicateFilename w fileDestination fileExtension 1, w))
        in case found of
             None \<Rightarrow> ([], w0\<lparr>overflowed := True\<rparr>)
           | Some newName \<Rightarrow>
               let (renamed, w1) = renameFile w0 (mFileDestination s) newName
               in (if renamed then newName else [], w1)
      else ([], w))"

definition renameFileIfFull :: "QLoggerWriter \<Rightarrow> world \<Rightarrow> string \<times> QLoggerWriter \<times> world" where
  "renameFileIfFull s w =
     (if currentDate s = dateOf (now w) then ([], s, w)
      else
        case dateRotation s w of
          (Some result, s1, w1) \<Rightarrow> (result, s1, w1)
        | (None, s1, w1) \<Rightarrow> (let (result, w2) = sizeRotation s1 w1 in (result, s1, w2)))"

subsection \<open>write\<close>

text \<open>
  The function \<open>write\<close> of the class is \<open>write'\<close> here.

  Opening with \<open>ReadWrite | Text | Append\<close>: the content the file has (none when the file is
  created by the call), or \<open>None\<close> when the file cannot be opened. Closing stores the content
  with what the stream appended.
\<close>

definition contentOf :: "world \<Rightarrow> string \<Rightarrow> string" where
  "contentOf w path = (case map_of (files w) path of None \<Rightarrow> [] | Some c \<Rightarrow> c)"

definition openAppend :: "world \<Rightarrow> string \<Rightarrow> string option" where
  "openAppend w path = (if path \<in> set (noOpen w) then None else Some (contentOf w path))"

definition closeFile :: "world \<Rightarrow> string \<Rightarrow> string \<Rightarrow> world" where
  "closeFile w path content =
     w\<lparr>files := (path, content) # filter (\<lambda>e. fst e \<noteq> path) (files w)\<rparr>"

text \<open>The loop over the batch in console mode: one \<open>qInfo()\<close> line for each message.\<close>

fun consoleMessages :: "string list \<Rightarrow> string list \<Rightarrow> string list" where
  "consoleMessages [] con = con"
| "consoleMessages (message # messages) con = consoleMessages messages (con @ [message])"

text \<open>
  The loop over the batch in the file modes, on the text sent to the stream and the lines
  of the console.
\<close>

fun writeMessages :: "LogMode \<Rightarrow> string list \<Rightarrow> string \<times> string list \<Rightarrow> string \<times> string list" where
  "writeMessages mode [] (out, con) = (out, con)"
| "writeMessages mode (message # messages) (out, con) =
     writeMessages mode messages
       (out @ message, if mode = LogMode.Full then con @ [message] else con)"

definition write' :: "string list \<Rightarrow> QLoggerWriter \<Rightarrow> world \<Rightarrow> QLoggerWriter \<times> world" where
  "write' messages s w =
     (if mMode s = OnlyConsole
      then (s, w\<lparr>console := consoleMessages messages (console w)\<rparr>)
      else
        let (prevFilename, s1, w1) = renameFileIfFull s w
        in case openAppend w1 (mFileDestination s1) of
             None \<Rightarrow> (s1, w1)
           | Some content \<Rightarrow>
               let out = (if prevFilename \<noteq> [] then ''Previous log '' @ prevFilename @ [CHR 0x0A]
                          else []);
                   (out1, con1) = writeMessages (mMode s1) messages (out, console w1)
               in (s1, closeFile (w1\<lparr>console := con1\<rparr>) (mFileDestination s1) (content @ out1)))"

subsection \<open>enqueue\<close>

text \<open>The file and line (or file and function) segment of a line.\<close>

definition fileLineOf :: "QLoggerWriter \<Rightarrow> string \<Rightarrow> string \<Rightarrow> int \<Rightarrow> string" where
  "fileLineOf s function fileName line =
     (if testFlag (mMessageOptions s) File \<and> testFlag (mMessageOptions s) Line
         \<and> fileName \<noteq> [] \<and> 0 < line \<and> levelValue (mLevel s) \<le> levelValue Debug
      then ''{'' @ fileName @ '':'' @ number line @ ''}''
      else if testFlag (mMessageOptions s) File \<and> testFlag (mMessageOptions s) Function
         \<and> fileName \<noteq> [] \<and> function \<noteq> [] \<and> levelValue (mLevel s) \<le> levelValue Debug
      then ''{'' @ fileName @ ''}{'' @ function @ ''}''
      else [])"

text \<open>The text of a line, before the newline is appended.\<close>

definition lineText ::
  "QLoggerWriter \<Rightarrow> QDateTime \<Rightarrow> string \<Rightarrow> string \<Rightarrow> LogLevel \<Rightarrow> string \<Rightarrow> string \<Rightarrow> int
     \<Rightarrow> string \<Rightarrow> string" where
  "lineText s date threadId module level function fileName line message =
     (let fileLine = fileLineOf s function fileName line
      in if testFlag (mMessageOptions s) Default
         then ''['' @ levelToText level @ '']['' @ module @ '']['' @ timestampText date
                @ '']['' @ threadId @ '']'' @ fileLine @ '' '' @ message
         else
           let text = [];
               text = (if testFlag (mMessageOptions s) LogMessageDisplay.LogLevel
                       then text @ ''['' @ levelToText level @ '']'' else text);
               text = (if testFlag (mMessageOptions s) ModuleName
                       then text @ ''['' @ module @ '']'' else text);
               text = (if testFlag (mMessageOptions s) LogMessageDisplay.DateTime
                       then text @ ''['' @ timestampText date @ '']'' else text);
               text = (if testFlag (mMessageOptions s) ThreadId
                       then text @ ''['' @ threadId @ '']'' else text);
               text = (if fileLine \<noteq> []
                       then text @ (if startsWith CHR '' '' fileLine then right 1 fileLine
                                    else fileLine)
                       else text)
           in if testFlag (mMessageOptions s) Message
              then (if text = [] \<or> endsWith CHR '' '' text then text @ message
                    else text @ '' '' @ message)
              else text)"

definition enqueue ::
  "QDateTime \<Rightarrow> string \<Rightarrow> string \<Rightarrow> LogLevel \<Rightarrow> string \<Rightarrow> string \<Rightarrow> int \<Rightarrow> string
     \<Rightarrow> QLoggerWriter \<Rightarrow> world \<Rightarrow> QLoggerWriter" where
  "enqueue date threadId module level function fileName line message s w =
     (if mMode s = Disabled then s
      else
        let text = lineText s date threadId module level function fileName line message
                     @ [CHR 0x0A];
            s1 = s\<lparr>mMessages := mMessages s @ [text]\<rparr>
        in if writeMSec s1 < nowMSecs w - wakeUpTime s1
           then (if mIsStop s1 then s1 else s1\<lparr>wakeAlls := wakeAlls s1 + 1\<rparr>)
                  \<lparr>wakeUpTime := nowMSecs w\<rparr>
           else s1)"

subsection \<open>run\<close>

text \<open>
  The body of the loop of the worker takes the queue under the mutex and then writes the
  batch outside it: \<open>takeBatch\<close> is the exchange, the batch and the writer with its queue
  empty, and the write is \<open>write\<close> on the batch.
\<close>

definition takeBatch :: "QLoggerWriter \<Rightarrow> string list \<times> QLoggerWriter" where
  "takeBatch s = (mMessages s, s\<lparr>mMessages := []\<rparr>)"

subsection \<open>closeDestination\<close>

text \<open>
  \<open>drainQueue\<close> is the first statement, which writes the queue when it has lines. The clock
  is read again for the text of the last line, and again by the write of that line.
\<close>

definition drainQueue :: "QLoggerWriter \<Rightarrow> world \<Rightarrow> QLoggerWriter \<times> world" where
  "drainQueue s w =
     (if mMessages s \<noteq> []
      then let (copy, s0) = takeBatch s in write' copy s0 w
      else (s, w))"

definition closeDestination :: "QLoggerWriter \<Rightarrow> world \<Rightarrow> QLoggerWriter \<times> world" where
  "closeDestination s w =
     (let (s1, w1) = drainQueue s w;
          w2 = elapse w1;
          closed = [] @ [''Closed '' @ nowText w2 @ '' '' @ [CHR 0x0A]];
          (s2, w3) = write' closed s1 (elapse w2)
      in (s2\<lparr>mQuit := True, wakeAlls := wakeAlls s2 + 1\<rparr>, w3))"

section \<open>Reference definitions and example states\<close>

text \<open>
  The rotation policy in the words of the specification: rotation by date alone, with no
  statement after the block of the date-based rotation.
\<close>

definition renameFileIfFull_dateOnly ::
  "QLoggerWriter \<Rightarrow> world \<Rightarrow> string \<times> QLoggerWriter \<times> world" where
  "renameFileIfFull_dateOnly s w =
     (if currentDate s = dateOf (now w) then ([], s, w)
      else
        case dateRotation s w of
          (Some result, s1, w1) \<Rightarrow> (result, s1, w1)
        | (None, s1, w1) \<Rightarrow> ([], s1, w1))"

text \<open>
  The composition of a line in the words of the specification: the enabled fields in the
  order Level, Module, Timestamp, ThreadId, each in brackets, then the file segment, then
  the message, after one space unless the text so far is empty or ends in a space.
\<close>

definition composedFields ::
  "LogMessageDisplays \<Rightarrow> string \<Rightarrow> string \<Rightarrow> string \<Rightarrow> string \<Rightarrow> string \<Rightarrow> string \<Rightarrow> string" where
  "composedFields opts levelText module stamp threadId segment message =
     (let fields =
            (if testFlag opts LogMessageDisplay.LogLevel then ''['' @ levelText @ '']'' else [])
          @ (if testFlag opts ModuleName then ''['' @ module @ '']'' else [])
          @ (if testFlag opts LogMessageDisplay.DateTime then ''['' @ stamp @ '']'' else [])
          @ (if testFlag opts ThreadId then ''['' @ threadId @ '']'' else [])
          @ segment
      in if testFlag opts Message
         then (if fields = [] then message
               else if last fields = CHR '' '' then fields @ message
               else fields @ '' '' @ message)
         else fields)"

text \<open>
  A machine on 2 January 2024 that holds a log file written the day before, and a writer
  of that file whose tracked date is 1 January 2024.
\<close>

definition exampleWorld :: world where
  "exampleWorld =
     \<lparr>files = [(''logs/app.log'', ''old'' @ [CHR 0x0A])], noOpen = [], noRename = [],
      console = [],
      now = \<lparr>year = 2024, month = 1, day = 2, hour = 9, minute = 30, second = 0, msec = 7\<rparr>,
      nowText = ''Tue Jan 2 09:30:00 2024'', nowMSecs = 5000, processes = [],
      zipFinished = True, zipCrashed = False, zipElapsed = 120, later = [],
      overflowed = False\<rparr>"

definition exampleWriter :: QLoggerWriter where
  "exampleWriter =
     \<lparr>mFileDestination = ''logs/app.log'', mFileSuffixIfFull = Number, mMode = OnlyFile,
      mLevel = Debug, mMessageOptions = flagValue Default, mMaxFileSize = 1048576,
      mMessages = [], mQuit = False, mIsStop = False,
      currentDate = \<lparr>year = 2024, month = 1, day = 1\<rparr>,
      wakeUpTime = 0, writeMSec = 1000, wakeAlls = 0\<rparr>"

definition exampleStamp :: QDateTime where
  "exampleStamp =
     \<lparr>year = 2024, month = 1, day = 2, hour = 9, minute = 29, second = 58, msec = 41\<rparr>"

text \<open>A machine where the names \<open>a.log\<close>, \<open>a(2).log\<close> and \<open>a(5).log\<close> are taken.\<close>

definition duplicatesWorld :: world where
  "duplicatesWorld =
     exampleWorld\<lparr>files := [(''a.log'', ''one''), (''a(2).log'', ''two''), (''a(5).log'', ''five'')]\<rparr>"

text \<open>
  A writer with one line in its queue, a machine without the log file, and a writer and a
  machine whose log file has an extension of four letters.
\<close>

definition queuedWriter :: QLoggerWriter where
  "queuedWriter = exampleWriter\<lparr>mMessages := [''line1'' @ [CHR 0x0A]]\<rparr>"

definition emptyWorld :: world where
  "emptyWorld = exampleWorld\<lparr>files := []\<rparr>"

definition jsonWriter :: QLoggerWriter where
  "jsonWriter = exampleWriter\<lparr>mFileDestination := ''logs/app.json''\<rparr>"

definition jsonWorld :: world where
  "jsonWorld = exampleWorld\<lparr>files := [(''logs/app.json'', ''old'' @ [CHR 0x0A])]\<rparr>"


text \<open>
  The rotation step renames the destination file: a rotation is due and the rename
  succeeds.
\<close>

definition rotates :: "QLoggerWriter \<Rightarrow> world \<Rightarrow> bool" where
  "rotates s w \<longleftrightarrow>
     currentDate s \<noteq> dateOf (now w) \<and> fst (renameFile w (mFileDestination s) (newNameOf s))"

text \<open>
  A writer with one line in its queue whose tracked date is the day of the machine, and
  a machine whose clock shows the next day at its later readings.
\<close>

definition sameDayWriter :: QLoggerWriter where
  "sameDayWriter = queuedWriter\<lparr>currentDate := \<lparr>year = 2024, month = 1, day = 2\<rparr>\<rparr>"

definition midnightWorld :: world where
  "midnightWorld =
     exampleWorld
       \<lparr>later :=
          [(\<lparr>year = 2024, month = 1, day = 3, hour = 0, minute = 0, second = 1, msec = 0\<rparr>,
            ''Wed Jan 3 00:00:01 2024'', 6000),
           (\<lparr>year = 2024, month = 1, day = 3, hour = 0, minute = 0, second = 1, msec = 2\<rparr>,
            ''Wed Jan 3 00:00:01 2024'', 6002)]\<rparr>"

section \<open>Properties of the rotation\<close>

lemmas run_defs =
  exampleWorld_def exampleWriter_def exampleStamp_def renameFileIfFull_def dateRotation_def
  sizeRotation_def newNameOf_def insertAt_def dateSuffix_def pad_def dec.simps digit_def
  renameFile_def fileExists_def fileSize_def zipFileCustom_def midLen_def number_def
  dateOf_def openAppend_def contentOf_def closeFile_def write'_def closeDestination_def
  drainQueue_def takeBatch_def elapse_def
  left_def mid_def duplicatePath_def generateDuplicateFilename.simps INT_MAX_def

lemma renameFile_keeps:
  "renameFile w a b = (r, w1) \<Longrightarrow>
     now w1 = now w \<and> nowText w1 = nowText w \<and> noOpen w1 = noOpen w \<and> console w1 = console w
     \<and> processes w1 = processes w \<and> noRename w1 = noRename w \<and> later w1 = later w"
  by (auto simp: renameFile_def split: option.splits if_splits)

lemma elapse_keeps:
  "files (elapse w) = files w" "noOpen (elapse w) = noOpen w" "noRename (elapse w) = noRename w"
  "console (elapse w) = console w" "processes (elapse w) = processes w"
  by (simp_all add: elapse_def split: list.splits)

lemma renameFile_fails: "renameFile w a b = (False, w1) \<Longrightarrow> w1 = w"
  by (auto simp: renameFile_def split: option.splits if_splits)

text \<open>
  Claim C8. When a rotation is due and the rename of the destination file fails,
  \<open>renameFileIfFull\<close> returns the empty string, and neither the writer nor the machine
  changes: the tracked date stays, no file is renamed, no archiving command is started,
  and there is one attempt only. The function returns a value, so no error reaches the
  caller.
\<close>

theorem renameFileIfFull_rename_fails:
  assumes "currentDate s \<noteq> dateOf (now w)"
    and "\<not> fst (renameFile w (mFileDestination s) (newNameOf s))"
  shows "renameFileIfFull s w = ([], s, w)"
proof -
  obtain r w1 where rn: "renameFile w (mFileDestination s) (newNameOf s) = (r, w1)"
    by (cases "renameFile w (mFileDestination s) (newNameOf s)")
  with assms(2) have "r = False" by simp
  with rn have "w1 = w" by (simp add: renameFile_fails)
  with rn \<open>r = False\<close> assms(1) show ?thesis
    by (simp add: renameFileIfFull_def dateRotation_def)
qed

theorem renameFileIfFull_rename_fails_witness:
  "currentDate exampleWriter \<noteq> dateOf (now (exampleWorld\<lparr>noRename := [''logs/app.log'']\<rparr>))
   \<and> \<not> fst (renameFile (exampleWorld\<lparr>noRename := [''logs/app.log'']\<rparr>)
            (mFileDestination exampleWriter) (newNameOf exampleWriter))
   \<and> renameFileIfFull exampleWriter (exampleWorld\<lparr>noRename := [''logs/app.log'']\<rparr>)
       = ([], exampleWriter, exampleWorld\<lparr>noRename := [''logs/app.log'']\<rparr>)"
proof -
  have d: "currentDate exampleWriter
      \<noteq> dateOf (now (exampleWorld\<lparr>noRename := [''logs/app.log'']\<rparr>))"
    by (simp add: run_defs)
  have f: "\<not> fst (renameFile (exampleWorld\<lparr>noRename := [''logs/app.log'']\<rparr>)
            (mFileDestination exampleWriter) (newNameOf exampleWriter))"
    by (simp add: run_defs)
  from d f renameFileIfFull_rename_fails [OF d f] show ?thesis by simp
qed

text \<open>
  Claim C9. When a rotation is due, the quit flag is set and the rename succeeds,
  \<open>renameFileIfFull\<close> returns the new name of the file, sets the tracked date to today and
  leaves the machine as the rename left it: no archiving command is started.
\<close>

lemma dateRotation_returns: "\<exists>result s1 w1. dateRotation s w = (Some result, s1, w1)"
  by (simp add: dateRotation_def Let_def split: prod.splits)

text \<open>
  Claim C3. The block of the date-based rotation returns on every path, so the size-based
  rotation after it never runs: \<open>renameFileIfFull\<close> is the rotation by date alone.
\<close>

theorem renameFileIfFull_size_branch_dead:
  "fst (dateRotation s w) \<noteq> None \<and> renameFileIfFull s w = renameFileIfFull_dateOnly s w"
proof -
  obtain result s1 w1 where "dateRotation s w = (Some result, s1, w1)"
    using dateRotation_returns by blast
  then show ?thesis
    by (simp add: renameFileIfFull_def renameFileIfFull_dateOnly_def)
qed

theorem renameFileIfFull_size_branch_dead_witness:
  "mMaxFileSize (exampleWriter\<lparr>mMaxFileSize := 1\<rparr>)
     \<le> fileSize exampleWorld (mFileDestination (exampleWriter\<lparr>mMaxFileSize := 1\<rparr>))
   \<and> fst (sizeRotation (exampleWriter\<lparr>mMaxFileSize := 1\<rparr>) exampleWorld) = ''logs/app(2).log''
   \<and> fst (renameFileIfFull (exampleWriter\<lparr>mMaxFileSize := 1\<rparr>) exampleWorld)
       = fst (renameFileIfFull_dateOnly (exampleWriter\<lparr>mMaxFileSize := 1\<rparr>) exampleWorld)
   \<and> fst (renameFileIfFull_dateOnly (exampleWriter\<lparr>mMaxFileSize := 1\<rparr>) exampleWorld)
       = ''logs/app_2024_01_01.log to archive : logs/app_2024_01_01.7z. finished: yes, The process exited normall. Time::120''"
proof -
  have a: "mMaxFileSize (exampleWriter\<lparr>mMaxFileSize := 1\<rparr>)
     \<le> fileSize exampleWorld (mFileDestination (exampleWriter\<lparr>mMaxFileSize := 1\<rparr>))"
    by (simp add: exampleWorld_def exampleWriter_def fileSize_def)
  have b: "fst (sizeRotation (exampleWriter\<lparr>mMaxFileSize := 1\<rparr>) exampleWorld)
      = ''logs/app(2).log''"
    by (simp add: exampleWorld_def exampleWriter_def sizeRotation_def fileSize_def left_def
        mid_def generateDuplicateFilename.simps duplicatePath_def fileExists_def number_def
        dec.simps digit_def renameFile_def Let_def INT_MAX_def)
  have c: "fst (renameFileIfFull_dateOnly (exampleWriter\<lparr>mMaxFileSize := 1\<rparr>) exampleWorld)
       = ''logs/app_2024_01_01.log to archive : logs/app_2024_01_01.7z. finished: yes, The process exited normall. Time::120''"
    by (simp add: exampleWorld_def exampleWriter_def renameFileIfFull_dateOnly_def
        dateRotation_def newNameOf_def insertAt_def dateSuffix_def pad_def dec.simps digit_def
        renameFile_def fileExists_def zipFileCustom_def midLen_def number_def dateOf_def Let_def
        elapse_def)
  from renameFileIfFull_size_branch_dead
    [of "exampleWriter\<lparr>mMaxFileSize := 1\<rparr>" exampleWorld]
  have "fst (renameFileIfFull (exampleWriter\<lparr>mMaxFileSize := 1\<rparr>) exampleWorld)
       = fst (renameFileIfFull_dateOnly (exampleWriter\<lparr>mMaxFileSize := 1\<rparr>) exampleWorld)"
    by simp
  with a b c show ?thesis by simp
qed

section \<open>Properties of the duplicate-name search\<close>

subsection \<open>Distinct suffix numbers give distinct names\<close>

lemma digit_inj: "a < 10 \<Longrightarrow> b < 10 \<Longrightarrow> digit a = digit b \<Longrightarrow> a = b"
proof -
  assume a: "a < 10" and b: "b < 10" and e: "digit a = digit b"
  have "(''0123456789'' ! a = ''0123456789'' ! b) = (a = b)"
    by (rule nth_eq_iff_index_eq) (use a b in simp_all)
  with e show "a = b" by (simp only: digit_def)
qed

lemma dec_nonempty: "dec n \<noteq> []"
  by (subst dec.simps) simp

lemma dec_inj: "dec n = dec m \<Longrightarrow> n = m"
proof (induction n arbitrary: m rule: dec.induct)
  case (1 n)
  show ?case
  proof (cases "n < 10")
    case small: True
    show ?thesis
    proof (cases "m < 10")
      case True
      with small "1.prems" show ?thesis
        by (simp add: dec.simps [of n] dec.simps [of m] digit_inj)
    next
      case False
      with small "1.prems" dec_nonempty [of "m div 10"] show ?thesis
        by (simp add: dec.simps [of n] dec.simps [of m])
    qed
  next
    case big: False
    show ?thesis
    proof (cases "m < 10")
      case True
      with big "1.prems" dec_nonempty [of "n div 10"] show ?thesis
        by (simp add: dec.simps [of n] dec.simps [of m])
    next
      case False
      with big "1.prems" have e: "dec (n div 10) = dec (m div 10)"
        and d: "digit (n mod 10) = digit (m mod 10)"
        by (simp_all add: dec.simps [of n] dec.simps [of m])
      from "1.IH" [OF big e] have "n div 10 = m div 10" .
      moreover from d have "n mod 10 = m mod 10" by (simp add: digit_inj)
      ultimately show ?thesis by (metis div_mult_mod_eq)
    qed
  qed
qed

lemma duplicatePath_inj:
  assumes "1 < a" and "1 < b" and "duplicatePath d e a = duplicatePath d e b"
  shows "a = b"
proof -
  from assms have "number a @ ('').'' @ e) = number b @ ('').'' @ e)"
    by (simp add: duplicatePath_def)
  then have "number a = number b"
    by (simp only: append_same_eq)
  with assms(1,2) have "dec (nat a) = dec (nat b)"
    by (simp add: number_def)
  then have "nat a = nat b" by (rule dec_inj)
  with assms(1,2) show ?thesis by simp
qed

lemma fileExists_iff: "fileExists w path \<longleftrightarrow> path \<in> fst ` set (files w)"
  using map_of_eq_None_iff [of "files w" path]
  by (cases "map_of (files w) path") (simp_all add: fileExists_def)

lemma inj_on_duplicatePath: "inj_on (duplicatePath d e) {k. 1 < k}"
proof (rule inj_onI)
  fix a b :: int
  assume "a \<in> {k. 1 < k}" and "b \<in> {k. 1 < k}"
    and "duplicatePath d e a = duplicatePath d e b"
  then show "a = b"
    using duplicatePath_inj [of a b d e] by simp
qed

lemma taken_names_bound:
  assumes "\<forall>j. m \<le> j \<and> j \<le> INT_MAX \<longrightarrow> fileExists w (duplicatePath d e j)" and "1 < m"
  shows "INT_MAX - m + 1 \<le> int (length (files w))"
proof -
  have sub: "{m..INT_MAX} \<subseteq> {k. 1 < k}"
    using assms(2) by auto
  have "inj_on (duplicatePath d e) {m..INT_MAX}"
    by (rule inj_on_subset [OF inj_on_duplicatePath sub])
  then have "card (duplicatePath d e ` {m..INT_MAX}) = card {m..INT_MAX}"
    by (rule card_image)
  moreover have "duplicatePath d e ` {m..INT_MAX} \<subseteq> fst ` set (files w)"
    using assms(1) by (auto simp: fileExists_iff)
  then have "card (duplicatePath d e ` {m..INT_MAX}) \<le> card (fst ` set (files w))"
    by (rule card_mono [rotated]) simp
  moreover have "card (fst ` set (files w)) \<le> length (files w)"
    by (rule order_trans [OF card_image_le card_length]) simp
  ultimately have "card {m..INT_MAX} \<le> length (files w)"
    by simp
  then show ?thesis by simp
qed

subsection \<open>The result of the search\<close>

lemma generateDuplicateFilename_search:
  assumes "n \<le> INT_MAX"
  shows "case generateDuplicateFilename w d e n of
       Some p \<Rightarrow>
         (\<exists>k. n \<le> k \<and> k \<le> INT_MAX \<and> p = duplicatePath d e k
            \<and> \<not> fileExists w (duplicatePath d e k)
            \<and> (\<forall>j. n \<le> j \<and> j < k \<longrightarrow> fileExists w (duplicatePath d e j)))
     | None \<Rightarrow> (\<forall>j. n \<le> j \<and> j \<le> INT_MAX \<longrightarrow> fileExists w (duplicatePath d e j))"
  using assms
proof (induction w d e n rule: generateDuplicateFilename.induct)
  case (1 w d e n)
  show ?case
  proof (cases "fileExists w (duplicatePath d e n)")
    case False
    then have "generateDuplicateFilename w d e n = Some (duplicatePath d e n)"
      by (simp add: generateDuplicateFilename.simps [of w d e n])
    with False "1.prems" show ?thesis by force
  next
    case taken: True
    show ?thesis
    proof (cases "INT_MAX \<le> n")
      case True
      with taken have "generateDuplicateFilename w d e n = None"
        by (simp add: generateDuplicateFilename.simps [of w d e n])
      moreover from True "1.prems" have "n = INT_MAX" by simp
      ultimately show ?thesis using taken by auto
    next
      case False
      with taken have step: "generateDuplicateFilename w d e n
          = generateDuplicateFilename w d e (n + 1)"
        by (simp add: generateDuplicateFilename.simps [of w d e n])
      from False have le: "n + 1 \<le> INT_MAX" by simp
      note ih = "1.IH" [OF refl taken False le]
      show ?thesis
      proof (cases "generateDuplicateFilename w d e (n + 1)")
        case None
        with ih have "\<forall>j. n + 1 \<le> j \<and> j \<le> INT_MAX \<longrightarrow> fileExists w (duplicatePath d e j)"
          by simp
        then have "\<forall>j. n \<le> j \<and> j \<le> INT_MAX \<longrightarrow> fileExists w (duplicatePath d e j)"
          using taken by (metis add.commute le_less zless_imp_add1_zle)
        with None step show ?thesis by simp
      next
        case (Some p)
        with ih obtain k where k: "n + 1 \<le> k" "k \<le> INT_MAX" "p = duplicatePath d e k"
            "\<not> fileExists w (duplicatePath d e k)"
            "\<forall>j. n + 1 \<le> j \<and> j < k \<longrightarrow> fileExists w (duplicatePath d e j)"
          by auto
        have "\<forall>j. n \<le> j \<and> j < k \<longrightarrow> fileExists w (duplicatePath d e j)"
          using k(5) taken by (metis add.commute le_less zless_imp_add1_zle)
        moreover from k(1) have "n \<le> k" by simp
        ultimately show ?thesis using Some step k(2,3,4) by auto
      qed
    qed
  qed
qed

text \<open>
  Claim C7, as amended. For every base name, extension, finite table of files and starting
  number \<open>n\<close> of the range of \<open>int\<close>: when the table has at most \<open>INT_MAX - max n 2\<close> entries,
  \<open>generateDuplicateFilename\<close> returns a name; a name it returns is the name of the first
  suffix number \<open>k\<close>, counting up from \<open>n\<close>, whose name is not taken (the names of all
  numbers from \<open>n\<close> below \<open>k\<close> are taken, and \<open>k\<close> is above \<open>n\<close> when the requested name is
  taken); and the count passes \<open>INT_MAX\<close> only when every name from \<open>n\<close> to \<open>INT_MAX\<close> is
  taken. From the starting number 1 of the source, the result is the lowest unused suffix
  number.
\<close>

theorem generateDuplicateFilename_lowest_unused:
  assumes "n \<le> INT_MAX"
  shows "(int (length (files w)) \<le> INT_MAX - max n 2 \<longrightarrow>
            generateDuplicateFilename w d e n \<noteq> None)
    \<and> (\<forall>p. generateDuplicateFilename w d e n = Some p \<longrightarrow>
          (\<exists>k. n \<le> k \<and> k \<le> INT_MAX \<and> p = duplicatePath d e k
             \<and> \<not> fileExists w (duplicatePath d e k)
             \<and> (\<forall>j. n \<le> j \<and> j < k \<longrightarrow> fileExists w (duplicatePath d e j))
             \<and> (fileExists w (duplicatePath d e n) \<longrightarrow> n < k)))
    \<and> (generateDuplicateFilename w d e n = None \<longrightarrow>
          (\<forall>j. n \<le> j \<and> j \<le> INT_MAX \<longrightarrow> fileExists w (duplicatePath d e j)))"
proof (intro conjI impI allI)
  assume small: "int (length (files w)) \<le> INT_MAX - max n 2"
  show "generateDuplicateFilename w d e n \<noteq> None"
  proof
    assume "generateDuplicateFilename w d e n = None"
    with generateDuplicateFilename_search [OF assms, of w d e]
    have "\<forall>j. n \<le> j \<and> j \<le> INT_MAX \<longrightarrow> fileExists w (duplicatePath d e j)"
      by simp
    then have "\<forall>j. max n 2 \<le> j \<and> j \<le> INT_MAX \<longrightarrow> fileExists w (duplicatePath d e j)"
      by simp
    then have "INT_MAX - max n 2 + 1 \<le> int (length (files w))"
      by (rule taken_names_bound) simp
    with small show False by simp
  qed
next
  fix p
  assume "generateDuplicateFilename w d e n = Some p"
  with generateDuplicateFilename_search [OF assms, of w d e]
  obtain k where k: "n \<le> k" "k \<le> INT_MAX" "p = duplicatePath d e k"
      "\<not> fileExists w (duplicatePath d e k)"
      "\<forall>j. n \<le> j \<and> j < k \<longrightarrow> fileExists w (duplicatePath d e j)"
    by auto
  have "fileExists w (duplicatePath d e n) \<longrightarrow> n < k"
  proof
    assume "fileExists w (duplicatePath d e n)"
    with k(4) have "n \<noteq> k" by auto
    with k(1) show "n < k" by simp
  qed
  with k show "\<exists>k. n \<le> k \<and> k \<le> INT_MAX \<and> p = duplicatePath d e k
             \<and> \<not> fileExists w (duplicatePath d e k)
             \<and> (\<forall>j. n \<le> j \<and> j < k \<longrightarrow> fileExists w (duplicatePath d e j))
             \<and> (fileExists w (duplicatePath d e n) \<longrightarrow> n < k)"
    by blast
next
  fix j
  assume "generateDuplicateFilename w d e n = None" and "n \<le> j \<and> j \<le> INT_MAX"
  with generateDuplicateFilename_search [OF assms, of w d e]
  show "fileExists w (duplicatePath d e j)"
    by simp
qed

lemma duplicatesWorld_taken:
  "fileExists duplicatesWorld (duplicatePath ''a'' ''log'' 1)"
  "fileExists duplicatesWorld (duplicatePath ''a'' ''log'' 2)"
  "\<not> fileExists duplicatesWorld (duplicatePath ''a'' ''log'' 3)"
  "duplicatePath ''a'' ''log'' 3 = ''a(3).log''"
  by (simp_all add: duplicatesWorld_def exampleWorld_def fileExists_def duplicatePath_def
      number_def dec.simps digit_def)

theorem generateDuplicateFilename_lowest_unused_witness:
  "1 \<le> INT_MAX \<and> int (length (files duplicatesWorld)) \<le> INT_MAX - max 1 2
   \<and> fileExists duplicatesWorld (duplicatePath ''a'' ''log'' 1)
   \<and> generateDuplicateFilename duplicatesWorld ''a'' ''log'' 1 = Some ''a(3).log''"
proof -
  have n: "1 \<le> INT_MAX"
    by (simp add: INT_MAX_def)
  have l: "int (length (files duplicatesWorld)) \<le> INT_MAX - max 1 2"
    by (simp add: INT_MAX_def duplicatesWorld_def)
  note t = generateDuplicateFilename_lowest_unused [OF n, of duplicatesWorld "''a''" "''log''"]
  from t l obtain p where p: "generateDuplicateFilename duplicatesWorld ''a'' ''log'' 1 = Some p"
    by auto
  with t obtain k where k: "1 \<le> k" "p = duplicatePath ''a'' ''log'' k"
      "\<not> fileExists duplicatesWorld (duplicatePath ''a'' ''log'' k)"
      "\<forall>j. 1 \<le> j \<and> j < k \<longrightarrow> fileExists duplicatesWorld (duplicatePath ''a'' ''log'' j)"
    by blast
  from k(3) duplicatesWorld_taken(1,2) have "k \<noteq> 1" and "k \<noteq> 2" by auto
  moreover have "\<not> 3 < k"
  proof
    assume "3 < k"
    with k(4) have "fileExists duplicatesWorld (duplicatePath ''a'' ''log'' 3)" by simp
    with duplicatesWorld_taken(3) show False by simp
  qed
  ultimately have "k = 3" using k(1) by arith
  with k(2) p n l duplicatesWorld_taken show ?thesis by simp
qed

text \<open>
  With \<open>a.log\<close>, \<open>a(2).log\<close> and \<open>a(5).log\<close> taken, the highest suffix in use is 5, and the
  search from 1 returns \<open>a(3).log\<close>.
\<close>

theorem generateDuplicateFilename_highest_counterexample:
  "fileExists duplicatesWorld ''a.log'' \<and> fileExists duplicatesWorld ''a(5).log''
   \<and> \<not> fileExists duplicatesWorld ''a(6).log''
   \<and> generateDuplicateFilename duplicatesWorld ''a'' ''log'' 1 = Some ''a(3).log''
   \<and> generateDuplicateFilename duplicatesWorld ''a'' ''log'' 1 \<noteq> Some ''a(6).log''"
  by (simp add: duplicatesWorld_def exampleWorld_def fileExists_def duplicatePath_def
      number_def dec.simps digit_def generateDuplicateFilename.simps INT_MAX_def)

section \<open>Properties of the formatter\<close>

subsection \<open>Display flags\<close>

lemma flag_subset:
  fixes i a b :: "32 word"
  assumes "i AND a = a" and "a AND b = b"
  shows "i AND b = b"
proof -
  have "i AND b = i AND (a AND b)" using assms(2) by simp
  also have "\<dots> = (i AND a) AND b" by (simp add: and.assoc)
  also have "\<dots> = b" using assms by simp
  finally show ?thesis .
qed

lemma testFlag_Default:
  assumes "testFlag i Default"
  shows "testFlag i LogMessageDisplay.LogLevel" and "testFlag i ModuleName"
    and "testFlag i LogMessageDisplay.DateTime" and "testFlag i ThreadId"
    and "testFlag i File" and "testFlag i Line" and "testFlag i Message"
proof -
  from assms have d: "i AND 239 = 239"
    by (simp add: testFlag_def)
  show "testFlag i LogMessageDisplay.LogLevel"
    using flag_subset [OF d, of 1] by (simp add: testFlag_def)
  show "testFlag i ModuleName"
    using flag_subset [OF d, of 2] by (simp add: testFlag_def)
  show "testFlag i LogMessageDisplay.DateTime"
    using flag_subset [OF d, of 4] by (simp add: testFlag_def)
  show "testFlag i ThreadId"
    using flag_subset [OF d, of 8] by (simp add: testFlag_def)
  show "testFlag i File"
    using flag_subset [OF d, of 32] by (simp add: testFlag_def)
  show "testFlag i Line"
    using flag_subset [OF d, of 64] by (simp add: testFlag_def)
  show "testFlag i Message"
    using flag_subset [OF d, of 128] by (simp add: testFlag_def)
qed

subsection \<open>The two branches of the formatter\<close>

lemma endsWith_last: "endsWith c str \<longleftrightarrow> str \<noteq> [] \<and> last str = c"
  by (cases str rule: rev_cases) (simp_all add: endsWith_def)

lemma fileLineOf_shape:
  "\<not> startsWith CHR '' '' (fileLineOf s function fileName line)"
  "fileLineOf s function fileName line \<noteq> [] \<Longrightarrow>
     last (fileLineOf s function fileName line) = CHR ''}''"
  by (auto simp: fileLineOf_def startsWith_def split: if_splits)

lemma lineText_custom:
  assumes "\<not> testFlag (mMessageOptions s) Default"
  shows "lineText s date threadId module level function fileName line message
    = composedFields (mMessageOptions s) (levelToText level) module (timestampText date)
        threadId (fileLineOf s function fileName line) message"
  using assms fileLineOf_shape [of s "function" fileName line]
  by (simp add: lineText_def composedFields_def Let_def endsWith_last)

lemma lineText_default:
  assumes "testFlag (mMessageOptions s) Default"
  shows "lineText s date threadId module level function fileName line message
    = ''['' @ levelToText level @ '']['' @ module @ '']['' @ timestampText date
        @ '']['' @ threadId @ '']'' @ fileLineOf s function fileName line @ '' '' @ message"
  using assms by (simp add: lineText_def)

lemma composedFields_default:
  assumes "testFlag opts Default" and "segment \<noteq> [] \<Longrightarrow> last segment = CHR ''}''"
  shows "composedFields opts levelText module stamp threadId segment message
    = ''['' @ levelText @ '']['' @ module @ '']['' @ stamp
        @ '']['' @ threadId @ '']'' @ segment @ '' '' @ message"
  using testFlag_Default [OF assms(1)] assms(2)
  by (cases "segment = []") (simp_all add: composedFields_def)

lemma lineText_composed:
  "lineText s date threadId module level function fileName line message
    = composedFields (mMessageOptions s) (levelToText level) module (timestampText date)
        threadId (fileLineOf s function fileName line) message"
proof (cases "testFlag (mMessageOptions s) Default")
  case True
  then show ?thesis
    by (simp add: lineText_default composedFields_default [OF True fileLineOf_shape(2)])
next
  case False
  then show ?thesis by (rule lineText_custom)
qed


lemma enqueue_queue:
  "mMode s \<noteq> Disabled \<Longrightarrow>
   mMessages (enqueue date threadId module level function fileName line message s w)
     = mMessages s
         @ [lineText s date threadId module level function fileName line message @ [CHR 0x0A]]"
  by (simp add: enqueue_def Let_def)

lemma fileLineOf_default:
  assumes "testFlag (mMessageOptions s) Default"
  shows "fileLineOf s function fileName line
    = (if fileName \<noteq> [] \<and> 0 < line \<and> levelValue (mLevel s) \<le> levelValue Debug
       then ''{'' @ fileName @ '':'' @ number line @ ''}''
       else if testFlag (mMessageOptions s) Function \<and> fileName \<noteq> [] \<and> function \<noteq> []
           \<and> levelValue (mLevel s) \<le> levelValue Debug
       then ''{'' @ fileName @ ''}{'' @ function @ ''}''
       else [])"
  using testFlag_Default(5,6) [OF assms] by (simp add: fileLineOf_def)

text \<open>
  Claim C1, as amended. A call of \<open>enqueue\<close> under a flag set that contains the default
  composite queues the line \<open>[Level][Module][Timestamp][ThreadId]\<close>, the file segment, one
  space, the message and a newline. The file segment is \<open>{File:Line}\<close> exactly when the file
  name is not empty, the line number is positive and the level configured for the writer
  (\<open>mLevel\<close>, not the level of the message) is at most \<open>Debug\<close>; otherwise it is
  \<open>{File}{Function}\<close> when the Function flag is set too, file name and function name are
  not empty and the configured level is at most \<open>Debug\<close>; otherwise it is empty. With the
  file name \<open>a.cpp\<close>, the line 10 and a configured level of at most \<open>Debug\<close>, the line
  contains \<open>{a.cpp:10}\<close>, whatever the level of the message.
\<close>

theorem enqueue_default_layout:
  assumes "mMode s \<noteq> Disabled" and "testFlag (mMessageOptions s) Default"
  shows "mMessages (enqueue date threadId module level function fileName line message s w)
      = mMessages s
          @ [''['' @ levelToText level @ '']['' @ module @ '']['' @ timestampText date
             @ '']['' @ threadId @ '']''
             @ (if fileName \<noteq> [] \<and> 0 < line \<and> levelValue (mLevel s) \<le> levelValue Debug
                then ''{'' @ fileName @ '':'' @ number line @ ''}''
                else if testFlag (mMessageOptions s) Function \<and> fileName \<noteq> []
                    \<and> function \<noteq> [] \<and> levelValue (mLevel s) \<le> levelValue Debug
                then ''{'' @ fileName @ ''}{'' @ function @ ''}''
                else [])
             @ '' '' @ message @ [CHR 0x0A]]
    \<and> (fileName = ''a.cpp'' \<and> line = 10 \<and> levelValue (mLevel s) \<le> levelValue Debug \<longrightarrow>
         sublist ''{a.cpp:10}''
           (last (mMessages
              (enqueue date threadId module level function fileName line message s w))))"
proof
  show "mMessages (enqueue date threadId module level function fileName line message s w)
      = mMessages s
          @ [''['' @ levelToText level @ '']['' @ module @ '']['' @ timestampText date
             @ '']['' @ threadId @ '']''
             @ (if fileName \<noteq> [] \<and> 0 < line \<and> levelValue (mLevel s) \<le> levelValue Debug
                then ''{'' @ fileName @ '':'' @ number line @ ''}''
                else if testFlag (mMessageOptions s) Function \<and> fileName \<noteq> []
                    \<and> function \<noteq> [] \<and> levelValue (mLevel s) \<le> levelValue Debug
                then ''{'' @ fileName @ ''}{'' @ function @ ''}''
                else [])
             @ '' '' @ message @ [CHR 0x0A]]"
    by (simp only: enqueue_queue [OF assms(1)] lineText_default [OF assms(2)]
        fileLineOf_default [OF assms(2)] append_assoc)
next
  show "fileName = ''a.cpp'' \<and> line = 10 \<and> levelValue (mLevel s) \<le> levelValue Debug \<longrightarrow>
         sublist ''{a.cpp:10}''
           (last (mMessages
              (enqueue date threadId module level function fileName line message s w)))"
  proof
    assume a: "fileName = ''a.cpp'' \<and> line = 10 \<and> levelValue (mLevel s) \<le> levelValue Debug"
    then have f: "fileLineOf s function fileName line = ''{a.cpp:10}''"
      by (simp add: fileLineOf_default [OF assms(2)] number_def dec.simps digit_def)
    have "last (mMessages
              (enqueue date threadId module level function fileName line message s w))
        = (''['' @ levelToText level @ '']['' @ module @ '']['' @ timestampText date
             @ '']['' @ threadId @ '']'') @ ''{a.cpp:10}'' @ ('' '' @ message @ [CHR 0x0A])"
      by (simp add: enqueue_queue [OF assms(1)] lineText_default [OF assms(2)] f)
    then show "sublist ''{a.cpp:10}''
           (last (mMessages
              (enqueue date threadId module level function fileName line message s w)))"
      by (simp only: sublist_appendI)
  qed
qed

theorem enqueue_default_layout_witness:
  "mMode exampleWriter \<noteq> Disabled \<and> testFlag (mMessageOptions exampleWriter) Default
   \<and> mMessages (enqueue exampleStamp ''7'' ''Net'' Error ''main'' ''a.cpp'' 10 ''hello''
        exampleWriter exampleWorld)
      = [''[Error][Net][2024-01-02 09:29:58:041][7]{a.cpp:10} hello'' @ [CHR 0x0A]]"
proof -
  have m: "mMode exampleWriter \<noteq> Disabled"
    by (simp add: exampleWriter_def)
  have d: "testFlag (mMessageOptions exampleWriter) Default"
    by (simp add: exampleWriter_def testFlag_def)
  have t: "timestampText exampleStamp = ''2024-01-02 09:29:58:041''"
    by (simp add: exampleStamp_def timestampText_def pad_def dec.simps digit_def)
  have n: "number 10 = ''10''"
    by (simp add: number_def dec.simps digit_def)
  have l: "mLevel exampleWriter = Debug" "mMessages exampleWriter = []"
    by (simp_all add: exampleWriter_def)
  from enqueue_default_layout [OF m d, THEN conjunct1,
      of exampleStamp "''7''" "''Net''" Error "''main''" "''a.cpp''" 10 "''hello''" exampleWorld]
  have "mMessages (enqueue exampleStamp ''7'' ''Net'' Error ''main'' ''a.cpp'' 10 ''hello''
        exampleWriter exampleWorld)
      = [''[Error][Net][2024-01-02 09:29:58:041][7]{a.cpp:10} hello'' @ [CHR 0x0A]]"
    by (simp add: t n l)
  with m d show ?thesis by simp
qed

text \<open>
  A writer configured at level \<open>Info\<close> with the default composite, and a message of level
  \<open>Debug\<close> from \<open>a.cpp\<close>, line 10: the line has no file segment.
\<close>

theorem enqueue_message_level_counterexample:
  "mMessages (enqueue exampleStamp ''7'' ''Net'' Debug ''main'' ''a.cpp'' 10 ''hello''
        (exampleWriter\<lparr>mLevel := Info\<rparr>) exampleWorld)
      = [''[Debug][Net][2024-01-02 09:29:58:041][7] hello'' @ [CHR 0x0A]]
   \<and> \<not> sublist ''{a.cpp:10}'' (''[Debug][Net][2024-01-02 09:29:58:041][7] hello'' @ [CHR 0x0A])"
proof
  show "mMessages (enqueue exampleStamp ''7'' ''Net'' Debug ''main'' ''a.cpp'' 10 ''hello''
        (exampleWriter\<lparr>mLevel := Info\<rparr>) exampleWorld)
      = [''[Debug][Net][2024-01-02 09:29:58:041][7] hello'' @ [CHR 0x0A]]"
    by (simp add: enqueue_def lineText_def fileLineOf_def testFlag_def exampleWriter_def
        exampleWorld_def exampleStamp_def timestampText_def pad_def dec.simps digit_def Let_def)
  show "\<not> sublist ''{a.cpp:10}''
      (''[Debug][Net][2024-01-02 09:29:58:041][7] hello'' @ [CHR 0x0A])"
    by (simp add: sublist_Cons_right)
qed



lemma lineText_no_fields:
  assumes "\<not> testFlag (mMessageOptions s) LogMessageDisplay.LogLevel"
    and "\<not> testFlag (mMessageOptions s) ModuleName"
    and "\<not> testFlag (mMessageOptions s) LogMessageDisplay.DateTime"
    and "\<not> testFlag (mMessageOptions s) ThreadId"
    and "\<not> testFlag (mMessageOptions s) File"
    and "\<not> testFlag (mMessageOptions s) Message"
  shows "lineText s date threadId module level function fileName line message = []"
  using assms by (simp add: lineText_composed composedFields_def fileLineOf_def)

text \<open>
  Claim C10. A call of \<open>enqueue\<close> in a mode other than \<open>Disabled\<close> appends exactly one
  element to the queue, and the element ends with a newline; when no field is enabled the
  element is the newline alone; so a queue of newline-terminated lines stays one.
\<close>

theorem enqueue_appends_one_line:
  assumes "mMode s \<noteq> Disabled"
  shows "(\<exists>text. mMessages (enqueue date threadId module level function fileName line message s w)
            = mMessages s @ [text @ [CHR 0x0A]])
    \<and> (\<not> testFlag (mMessageOptions s) LogMessageDisplay.LogLevel
        \<and> \<not> testFlag (mMessageOptions s) ModuleName
        \<and> \<not> testFlag (mMessageOptions s) LogMessageDisplay.DateTime
        \<and> \<not> testFlag (mMessageOptions s) ThreadId
        \<and> \<not> testFlag (mMessageOptions s) File
        \<and> \<not> testFlag (mMessageOptions s) Message \<longrightarrow>
        mMessages (enqueue date threadId module level function fileName line message s w)
          = mMessages s @ [[CHR 0x0A]])
    \<and> ((\<forall>m \<in> set (mMessages s). m \<noteq> [] \<and> last m = CHR 0x0A) \<longrightarrow>
        (\<forall>m \<in> set (mMessages
            (enqueue date threadId module level function fileName line message s w)).
           m \<noteq> [] \<and> last m = CHR 0x0A))"
  using enqueue_queue [OF assms, of date threadId module level "function" fileName line message w]
  by (auto simp: lineText_no_fields)

theorem enqueue_appends_one_line_witness:
  "mMode (exampleWriter\<lparr>mMessageOptions := 0, mMessages := [''first'' @ [CHR 0x0A]]\<rparr>)
     \<noteq> Disabled
   \<and> mMessages (enqueue exampleStamp ''7'' ''Net'' Error ''main'' ''a.cpp'' 10 ''timeout''
        (exampleWriter\<lparr>mMessageOptions := 0, mMessages := [''first'' @ [CHR 0x0A]]\<rparr>)
        exampleWorld)
      = [''first'' @ [CHR 0x0A], [CHR 0x0A]]"
proof -
  have m: "mMode (exampleWriter\<lparr>mMessageOptions := 0, mMessages := [''first'' @ [CHR 0x0A]]\<rparr>)
     \<noteq> Disabled"
    by (simp add: exampleWriter_def)
  from enqueue_appends_one_line [OF m, THEN conjunct2, THEN conjunct1,
      of exampleStamp "''7''" "''Net''" Error "''main''" "''a.cpp''" 10 "''timeout''" exampleWorld]
  have "mMessages (enqueue exampleStamp ''7'' ''Net'' Error ''main'' ''a.cpp'' 10 ''timeout''
        (exampleWriter\<lparr>mMessageOptions := 0, mMessages := [''first'' @ [CHR 0x0A]]\<rparr>)
        exampleWorld)
      = [''first'' @ [CHR 0x0A], [CHR 0x0A]]"
    by (simp add: testFlag_def)
  with m show ?thesis by simp
qed

section \<open>Properties of write and closeDestination\<close>

subsection \<open>What the rotation keeps\<close>

lemma renameFileIfFull_cases:
  "renameFileIfFull s w =
     (if currentDate s = dateOf (now w) then ([], s, w)
      else
        case renameFile w (mFileDestination s) (newNameOf s) of
          (False, w1) \<Rightarrow> ([], s, w1)
        | (True, w1) \<Rightarrow>
            if mQuit s
            then (newNameOf s, s\<lparr>currentDate := dateOf (now (elapse w1))\<rparr>, elapse w1)
            else (fst (zipFileCustom (newNameOf s) (elapse w1)),
                  s\<lparr>currentDate := dateOf (now (elapse w1))\<rparr>,
                  snd (zipFileCustom (newNameOf s) (elapse w1))))"
  by (simp add: renameFileIfFull_def dateRotation_def Let_def split: prod.splits bool.splits)

lemma zipFileCustom_keeps:
  "files (snd (zipFileCustom path w)) = files w"
  "noOpen (snd (zipFileCustom path w)) = noOpen w"
  "console (snd (zipFileCustom path w)) = console w"
  "now (snd (zipFileCustom path w)) = now w"
  "nowText (snd (zipFileCustom path w)) = nowText w"
  by (simp_all add: zipFileCustom_def Let_def)

lemma renameFileIfFull_keeps:
  assumes "renameFileIfFull s w = (prev, s1, w1)"
  shows "mFileDestination s1 = mFileDestination s" and "mMode s1 = mMode s"
    and "mMessages s1 = mMessages s" and "mQuit s1 = mQuit s" and "wakeAlls s1 = wakeAlls s"
    and "noOpen w1 = noOpen w" and "console w1 = console w"
proof -
  obtain r w2 where rn: "renameFile w (mFileDestination s) (newNameOf s) = (r, w2)"
    by (cases "renameFile w (mFileDestination s) (newNameOf s)")
  note k = renameFile_keeps [OF rn]
  from assms rn show "mFileDestination s1 = mFileDestination s"
    by (auto simp: renameFileIfFull_cases split: if_splits bool.splits)
  from assms rn show "mMode s1 = mMode s"
    by (auto simp: renameFileIfFull_cases split: if_splits bool.splits)
  from assms rn show "mMessages s1 = mMessages s"
    by (auto simp: renameFileIfFull_cases split: if_splits bool.splits)
  from assms rn show "mQuit s1 = mQuit s"
    by (auto simp: renameFileIfFull_cases split: if_splits bool.splits)
  from assms rn show "wakeAlls s1 = wakeAlls s"
    by (auto simp: renameFileIfFull_cases split: if_splits bool.splits)
  from assms rn k show "noOpen w1 = noOpen w"
    by (auto simp: renameFileIfFull_cases zipFileCustom_keeps elapse_keeps
        split: if_splits bool.splits)
  from assms rn k show "console w1 = console w"
    by (auto simp: renameFileIfFull_cases zipFileCustom_keeps elapse_keeps
        split: if_splits bool.splits)
qed

lemma map_of_filter_fst:
  "map_of (filter (\<lambda>e. fst e \<noteq> a) xs) p = (if p = a then None else map_of xs p)"
  by (induction xs) auto

lemma renameFile_contents:
  assumes "renameFile w a b = (r, w1)" and "map_of (files w1) p = Some c"
  shows "\<exists>q. map_of (files w) q = Some c"
  using assms
  by (auto simp: renameFile_def map_of_filter_fst split: option.splits if_splits)

lemma renameFileIfFull_contents:
  assumes "renameFileIfFull s w = (prev, s1, w1)" and "map_of (files w1) p = Some c"
  shows "\<exists>q. map_of (files w) q = Some c"
proof -
  obtain r w2 where rn: "renameFile w (mFileDestination s) (newNameOf s) = (r, w2)"
    by (cases "renameFile w (mFileDestination s) (newNameOf s)")
  from assms(1) rn have "files w1 = files w \<or> files w1 = files w2"
    by (auto simp: renameFileIfFull_cases zipFileCustom_keeps elapse_keeps
        split: if_splits bool.splits)
  with assms(2) renameFile_contents [OF rn] show ?thesis by auto
qed

subsection \<open>A destination that cannot be opened\<close>

text \<open>
  Claim C4. In a mode that writes to the file, when the destination cannot be opened,
  \<open>write\<close> does what the rotation step does and nothing more: the console stays as it
  was, every file content afterwards is a content that a file had before (nothing is
  written, no marker of the previous log and none of the messages), and the result does
  not depend on the batch, which is dropped. The function returns a value, there is one
  attempt to open, and the caller is told nothing.
\<close>

theorem write_open_fails:
  assumes "mMode s \<noteq> OnlyConsole" and "mFileDestination s \<in> set (noOpen w)"
  shows "write' messages s w = snd (renameFileIfFull s w)
    \<and> console (snd (write' messages s w)) = console w
    \<and> (\<forall>p c. map_of (files (snd (write' messages s w))) p = Some c \<longrightarrow>
          (\<exists>q. map_of (files w) q = Some c))"
proof -
  obtain prev s1 w1 where r: "renameFileIfFull s w = (prev, s1, w1)"
    by (cases "renameFileIfFull s w")
  note k = renameFileIfFull_keeps [OF r]
  from assms r k have e: "write' messages s w = (s1, w1)"
    by (simp add: write'_def openAppend_def)
  with r k renameFileIfFull_contents [OF r] show ?thesis by auto
qed

theorem write_open_fails_witness:
  "mMode (exampleWriter\<lparr>mMode := LogMode.Full\<rparr>) \<noteq> OnlyConsole
   \<and> mFileDestination (exampleWriter\<lparr>mMode := LogMode.Full\<rparr>)
       \<in> set (noOpen (exampleWorld\<lparr>noOpen := [''logs/app.log'']\<rparr>))
   \<and> console (snd (write' [''line1'' @ [CHR 0x0A]] (exampleWriter\<lparr>mMode := LogMode.Full\<rparr>)
         (exampleWorld\<lparr>noOpen := [''logs/app.log'']\<rparr>))) = []
   \<and> files (snd (write' [''line1'' @ [CHR 0x0A]] (exampleWriter\<lparr>mMode := LogMode.Full\<rparr>)
         (exampleWorld\<lparr>noOpen := [''logs/app.log'']\<rparr>)))
       = [(''logs/app_2024_01_01.log'', ''old'' @ [CHR 0x0A])]"
proof -
  have m: "mMode (exampleWriter\<lparr>mMode := LogMode.Full\<rparr>) \<noteq> OnlyConsole"
    by simp
  have n: "mFileDestination (exampleWriter\<lparr>mMode := LogMode.Full\<rparr>)
       \<in> set (noOpen (exampleWorld\<lparr>noOpen := [''logs/app.log'']\<rparr>))"
    by (simp add: exampleWriter_def)
  have c: "console (exampleWorld\<lparr>noOpen := [''logs/app.log'']\<rparr>) = []"
    by (simp add: exampleWorld_def)
  have f: "files (snd (snd (renameFileIfFull (exampleWriter\<lparr>mMode := LogMode.Full\<rparr>)
         (exampleWorld\<lparr>noOpen := [''logs/app.log'']\<rparr>))))
       = [(''logs/app_2024_01_01.log'', ''old'' @ [CHR 0x0A])]"
    by (simp add: exampleWorld_def exampleWriter_def renameFileIfFull_def dateRotation_def
        newNameOf_def insertAt_def dateSuffix_def pad_def dec.simps digit_def renameFile_def
        fileExists_def zipFileCustom_def dateOf_def Let_def elapse_def)
  note t = write_open_fails [OF m n, of "[''line1'' @ [CHR 0x0A]]"]
  have "console (snd (write' [''line1'' @ [CHR 0x0A]]
         (exampleWriter\<lparr>mMode := LogMode.Full\<rparr>)
         (exampleWorld\<lparr>noOpen := [''logs/app.log'']\<rparr>))) = []"
    by (simp only: t [THEN conjunct2, THEN conjunct1] c)
  moreover have "files (snd (write' [''line1'' @ [CHR 0x0A]]
         (exampleWriter\<lparr>mMode := LogMode.Full\<rparr>)
         (exampleWorld\<lparr>noOpen := [''logs/app.log'']\<rparr>)))
       = [(''logs/app_2024_01_01.log'', ''old'' @ [CHR 0x0A])]"
    by (simp only: t [THEN conjunct1] f)
  ultimately show ?thesis using m n by simp
qed

subsection \<open>What write appends\<close>








lemma write_keeps:
  assumes "write' messages s w = (s1, w1)"
  shows "mFileDestination s1 = mFileDestination s" and "mMode s1 = mMode s"
    and "mMessages s1 = mMessages s" and "mQuit s1 = mQuit s" and "wakeAlls s1 = wakeAlls s"
    and "noOpen w1 = noOpen w"
proof -
  obtain prev s2 w2 where r: "renameFileIfFull s w = (prev, s2, w2)"
    by (cases "renameFileIfFull s w")
  note k = renameFileIfFull_keeps [OF r]
  from assms r k show "mFileDestination s1 = mFileDestination s"
    by (auto simp: write'_def Let_def split: if_splits option.splits prod.splits)
  from assms r k show "mMode s1 = mMode s"
    by (auto simp: write'_def Let_def split: if_splits option.splits prod.splits)
  from assms r k show "mMessages s1 = mMessages s"
    by (auto simp: write'_def Let_def split: if_splits option.splits prod.splits)
  from assms r k show "mQuit s1 = mQuit s"
    by (auto simp: write'_def Let_def split: if_splits option.splits prod.splits)
  from assms r k show "wakeAlls s1 = wakeAlls s"
    by (auto simp: write'_def Let_def split: if_splits option.splits prod.splits)
  from assms r k show "noOpen w1 = noOpen w"
    by (auto simp: write'_def Let_def closeFile_def split: if_splits option.splits prod.splits)
qed



subsection \<open>closeDestination\<close>

lemma closeDestination_steps:
  assumes "drainQueue s w = (s1, w1)"
    and "write' [''Closed '' @ nowText (elapse w1) @ '' '' @ [CHR 0x0A]] s1 (elapse (elapse w1))
      = (s2, w3)"
  shows "closeDestination s w = (s2\<lparr>mQuit := True, wakeAlls := wakeAlls s2 + 1\<rparr>, w3)"
  using assms by (simp add: closeDestination_def)

lemma drainQueue_keeps:
  assumes "drainQueue s w = (s1, w1)"
  shows "mFileDestination s1 = mFileDestination s \<and> mMode s1 = mMode s
      \<and> mMessages s1 = [] \<and> mQuit s1 = mQuit s \<and> wakeAlls s1 = wakeAlls s
      \<and> noOpen w1 = noOpen w"
proof (cases "mMessages s = []")
  case True
  with assms show ?thesis
    by (auto simp: drainQueue_def)
next
  case False
  with assms have q: "write' (mMessages s) (s\<lparr>mMessages := []\<rparr>) w = (s1, w1)"
    by (simp add: drainQueue_def takeBatch_def)
  from write_keeps [OF q] show ?thesis
    by simp
qed








lemmas close_defs =
  queuedWriter_def sameDayWriter_def emptyWorld_def midnightWorld_def exampleWriter_def
  exampleWorld_def closeDestination_def drainQueue_def takeBatch_def elapse_def rotates_def
  write'_def renameFileIfFull_def dateRotation_def newNameOf_def insertAt_def dateSuffix_def
  pad_def dec.simps digit_def renameFile_def fileExists_def zipFileCustom_def midLen_def
  number_def dateOf_def openAppend_def contentOf_def closeFile_def Let_def




subsection \<open>The quit flag and the archiver\<close>

lemma elapse_still: "later w = [] \<Longrightarrow> elapse w = w"
  by (simp add: elapse_def)

lemma zipFileCustom_processes:
  "processes (snd (zipFileCustom path w))
     = processes w
         @ [(''7z'', [''a'', ''-t7z'', ''-mx9'',
                     midLen 0 (int (length path) - 4) path @ ''.7z'', path])]"
  by (simp add: zipFileCustom_def Let_def)

lemma renameFileIfFull_archives:
  assumes "rotates s w" and "\<not> mQuit s"
  shows "processes (snd (snd (renameFileIfFull s w)))
    = processes w
        @ [(''7z'', [''a'', ''-t7z'', ''-mx9'',
                    midLen 0 (int (length (newNameOf s)) - 4) (newNameOf s) @ ''.7z'',
                    newNameOf s])]"
proof -
  obtain r w1 where rn: "renameFile w (mFileDestination s) (newNameOf s) = (r, w1)"
    by (cases "renameFile w (mFileDestination s) (newNameOf s)")
  with assms(1) have "r" and d: "currentDate s \<noteq> dateOf (now w)"
    by (simp_all add: rotates_def)
  with rn assms(2) renameFile_keeps [OF rn] show ?thesis
    by (simp add: renameFileIfFull_cases zipFileCustom_processes elapse_keeps)
qed

lemma write_processes:
  assumes "mMode s \<noteq> OnlyConsole"
  shows "processes (snd (write' messages s w)) = processes (snd (snd (renameFileIfFull s w)))"
proof -
  obtain prev s1 w1 where r: "renameFileIfFull s w = (prev, s1, w1)"
    by (cases "renameFileIfFull s w")
  with assms show ?thesis
    by (simp add: write'_def closeFile_def Let_def split: option.splits prod.splits)
qed

lemma closeDestination_archives:
  assumes "\<not> mQuit s" and "mMode s \<noteq> OnlyConsole"
    and "rotates (fst (drainQueue s w)) (elapse (elapse (snd (drainQueue s w))))"
  shows "processes (snd (closeDestination s w))
    = processes (snd (drainQueue s w))
        @ [(''7z'', [''a'', ''-t7z'', ''-mx9'',
                    midLen 0 (int (length (newNameOf (fst (drainQueue s w)))) - 4)
                      (newNameOf (fst (drainQueue s w))) @ ''.7z'',
                    newNameOf (fst (drainQueue s w))])]"
proof -
  obtain s1 w1 where d: "drainQueue s w = (s1, w1)"
    by (cases "drainQueue s w")
  obtain s2 w3 where c:
    "write' [''Closed '' @ nowText (elapse w1) @ '' '' @ [CHR 0x0A]] s1 (elapse (elapse w1))
      = (s2, w3)"
    by (cases "write' [''Closed '' @ nowText (elapse w1) @ '' '' @ [CHR 0x0A]] s1
        (elapse (elapse w1))")
  from drainQueue_keeps [OF d] assms have q: "\<not> mQuit s1" and m: "mMode s1 \<noteq> OnlyConsole"
    by simp_all
  from assms(3) d have r: "rotates s1 (elapse (elapse w1))"
    by simp
  from write_processes [OF m, of "[''Closed '' @ nowText (elapse w1) @ '' '' @ [CHR 0x0A]]"
      "elapse (elapse w1)"] c renameFileIfFull_archives [OF r q] d
  show ?thesis
    by (simp add: closeDestination_steps [OF d c] elapse_keeps)
qed

text \<open>
  Claim C9, as amended. A rotation that runs while the quit flag is set renames the file,
  sets the tracked date to the day then read from the clock and returns the new name of the
  file, and starts no archiving command. A rotation that runs while the flag is clear
  starts the archiving command on the renamed file. \<open>closeDestination\<close> sets the flag after
  its writes, so the rotation that the write of its \<open>Closed\<close> line performs is archived when
  the flag was clear at the call.
\<close>

theorem renameFileIfFull_quit_no_archive:
  "(currentDate s \<noteq> dateOf (now w) \<and> mQuit s
      \<and> renameFile w (mFileDestination s) (newNameOf s) = (True, w1) \<longrightarrow>
      renameFileIfFull s w
        = (newNameOf s, s\<lparr>currentDate := dateOf (now (elapse w1))\<rparr>, elapse w1)
      \<and> processes (elapse w1) = processes w)
   \<and> (rotates s w \<and> \<not> mQuit s \<longrightarrow>
      processes (snd (snd (renameFileIfFull s w)))
        = processes w
            @ [(''7z'', [''a'', ''-t7z'', ''-mx9'',
                        midLen 0 (int (length (newNameOf s)) - 4) (newNameOf s) @ ''.7z'',
                        newNameOf s])])
   \<and> (\<not> mQuit s \<and> mMode s \<noteq> OnlyConsole
      \<and> rotates (fst (drainQueue s w)) (elapse (elapse (snd (drainQueue s w)))) \<longrightarrow>
      processes (snd (closeDestination s w))
        = processes (snd (drainQueue s w))
            @ [(''7z'', [''a'', ''-t7z'', ''-mx9'',
                        midLen 0 (int (length (newNameOf (fst (drainQueue s w)))) - 4)
                          (newNameOf (fst (drainQueue s w))) @ ''.7z'',
                        newNameOf (fst (drainQueue s w))])])"
proof (intro conjI impI)
  assume a: "currentDate s \<noteq> dateOf (now w) \<and> mQuit s
      \<and> renameFile w (mFileDestination s) (newNameOf s) = (True, w1)"
  then have rn: "renameFile w (mFileDestination s) (newNameOf s) = (True, w1)"
    by simp
  from a show "renameFileIfFull s w
        = (newNameOf s, s\<lparr>currentDate := dateOf (now (elapse w1))\<rparr>, elapse w1)"
    by (simp add: renameFileIfFull_cases)
  from renameFile_keeps [OF rn] show "processes (elapse w1) = processes w"
    by (simp add: elapse_keeps)
next
  assume "rotates s w \<and> \<not> mQuit s"
  then show "processes (snd (snd (renameFileIfFull s w)))
        = processes w
            @ [(''7z'', [''a'', ''-t7z'', ''-mx9'',
                        midLen 0 (int (length (newNameOf s)) - 4) (newNameOf s) @ ''.7z'',
                        newNameOf s])]"
    by (simp add: renameFileIfFull_archives)
next
  assume "\<not> mQuit s \<and> mMode s \<noteq> OnlyConsole
      \<and> rotates (fst (drainQueue s w)) (elapse (elapse (snd (drainQueue s w))))"
  then show "processes (snd (closeDestination s w))
        = processes (snd (drainQueue s w))
            @ [(''7z'', [''a'', ''-t7z'', ''-mx9'',
                        midLen 0 (int (length (newNameOf (fst (drainQueue s w)))) - 4)
                          (newNameOf (fst (drainQueue s w))) @ ''.7z'',
                        newNameOf (fst (drainQueue s w))])]"
    by (simp add: closeDestination_archives)
qed

theorem renameFileIfFull_quit_no_archive_witness:
  "currentDate (exampleWriter\<lparr>mQuit := True\<rparr>) \<noteq> dateOf (now exampleWorld)
   \<and> mQuit (exampleWriter\<lparr>mQuit := True\<rparr>)
   \<and> renameFile exampleWorld (mFileDestination (exampleWriter\<lparr>mQuit := True\<rparr>))
        (newNameOf (exampleWriter\<lparr>mQuit := True\<rparr>))
      = (True, exampleWorld\<lparr>files := [(''logs/app_2024_01_01.log'', ''old'' @ [CHR 0x0A])]\<rparr>)
   \<and> renameFileIfFull (exampleWriter\<lparr>mQuit := True\<rparr>) exampleWorld
      = (''logs/app_2024_01_01.log'',
         exampleWriter\<lparr>mQuit := True, currentDate := \<lparr>year = 2024, month = 1, day = 2\<rparr>\<rparr>,
         exampleWorld\<lparr>files := [(''logs/app_2024_01_01.log'', ''old'' @ [CHR 0x0A])]\<rparr>)
   \<and> processes (exampleWorld\<lparr>files := [(''logs/app_2024_01_01.log'', ''old'' @ [CHR 0x0A])]\<rparr>)
      = []
   \<and> rotates exampleWriter exampleWorld \<and> \<not> mQuit exampleWriter
   \<and> processes (snd (snd (renameFileIfFull exampleWriter exampleWorld)))
      = [(''7z'', [''a'', ''-t7z'', ''-mx9'', ''logs/app_2024_01_01.7z'',
                  ''logs/app_2024_01_01.log''])]"
proof -
  have d: "currentDate (exampleWriter\<lparr>mQuit := True\<rparr>) \<noteq> dateOf (now exampleWorld)"
    by (simp add: run_defs)
  have q: "mQuit (exampleWriter\<lparr>mQuit := True\<rparr>)"
    by simp
  have r: "renameFile exampleWorld (mFileDestination (exampleWriter\<lparr>mQuit := True\<rparr>))
        (newNameOf (exampleWriter\<lparr>mQuit := True\<rparr>))
      = (True, exampleWorld\<lparr>files := [(''logs/app_2024_01_01.log'', ''old'' @ [CHR 0x0A])]\<rparr>)"
    by (simp add: run_defs)
  have n: "newNameOf (exampleWriter\<lparr>mQuit := True\<rparr>) = ''logs/app_2024_01_01.log''"
    "newNameOf exampleWriter = ''logs/app_2024_01_01.log''"
    by (simp_all add: run_defs)
  have e: "later exampleWorld = []"
    by (simp add: exampleWorld_def)
  have t: "dateOf (now exampleWorld) = \<lparr>year = 2024, month = 1, day = 2\<rparr>"
    by (simp add: run_defs)
  have p: "processes exampleWorld = []"
    by (simp add: run_defs)
  have ro: "rotates exampleWriter exampleWorld"
    by (simp add: rotates_def run_defs)
  have nq: "\<not> mQuit exampleWriter"
    by (simp add: exampleWriter_def)
  note inst = renameFileIfFull_quit_no_archive [of "exampleWriter\<lparr>mQuit := True\<rparr>" exampleWorld
      "exampleWorld\<lparr>files := [(''logs/app_2024_01_01.log'', ''old'' @ [CHR 0x0A])]\<rparr>"]
  from inst [THEN conjunct1] d q r
  have a: "renameFileIfFull (exampleWriter\<lparr>mQuit := True\<rparr>) exampleWorld
      = (''logs/app_2024_01_01.log'',
         exampleWriter\<lparr>mQuit := True, currentDate := \<lparr>year = 2024, month = 1, day = 2\<rparr>\<rparr>,
         exampleWorld\<lparr>files := [(''logs/app_2024_01_01.log'', ''old'' @ [CHR 0x0A])]\<rparr>)"
    by (simp add: n e t elapse_still)
  from renameFileIfFull_quit_no_archive [of exampleWriter exampleWorld, THEN conjunct2,
      THEN conjunct1] ro nq
  have b: "processes (snd (snd (renameFileIfFull exampleWriter exampleWorld)))
      = [(''7z'', [''a'', ''-t7z'', ''-mx9'', ''logs/app_2024_01_01.7z'',
                  ''logs/app_2024_01_01.log''])]"
    by (simp add: n p midLen_def)
  from d q r a p ro nq b show ?thesis by simp
qed

text \<open>
  A call of \<open>closeDestination\<close> with the quit flag clear and a rotation due: the rotation of
  the shutdown starts the archiving command, and the flag is set when the call returns.
\<close>

theorem closeDestination_archives_counterexample:
  "\<not> mQuit exampleWriter
   \<and> mQuit (fst (closeDestination exampleWriter exampleWorld))
   \<and> processes exampleWorld = []
   \<and> processes (snd (closeDestination exampleWriter exampleWorld))
      = [(''7z'', [''a'', ''-t7z'', ''-mx9'', ''logs/app_2024_01_01.7z'',
                  ''logs/app_2024_01_01.log''])]
   \<and> files (snd (closeDestination exampleWriter exampleWorld))
      = [(''logs/app.log'',
          ''Previous log logs/app_2024_01_01.log to archive : logs/app_2024_01_01.7z. finished: yes, The process exited normall. Time::120''
            @ [CHR 0x0A] @ ''Closed Tue Jan 2 09:30:00 2024 '' @ [CHR 0x0A]),
         (''logs/app_2024_01_01.log'', ''old'' @ [CHR 0x0A])]"
  by (simp add: close_defs)

section \<open>The name of the rotated file\<close>

text \<open>
  On the day of the tracked date the rotation does nothing. On another day, a rename that
  succeeds moves the destination file to the new name and sets the tracked date to the day
  then read from the clock.
  The new name has the tracked date before the extension when the extension has three
  letters.
\<close>

lemma renameFileIfFull_same_day:
  "currentDate s = dateOf (now w) \<Longrightarrow> renameFileIfFull s w = ([], s, w)"
  by (simp add: renameFileIfFull_cases)

lemma newNameOf_three_letter_extension:
  assumes "mFileDestination s = base @ ''.'' @ ext" and "length ext = 3"
  shows "newNameOf s = base @ dateSuffix (currentDate s) @ ''.'' @ ext"
  using assms by (simp add: newNameOf_def insertAt_def dateSuffix_def)

lemma renameFileIfFull_rotates:
  assumes "currentDate s \<noteq> dateOf (now w)"
    and "renameFile w (mFileDestination s) (newNameOf s) = (True, w1)"
  shows "currentDate (fst (snd (renameFileIfFull s w))) = dateOf (now (elapse w1))"
    and "files (snd (snd (renameFileIfFull s w))) = files w1"
    and "map_of (files w1) (newNameOf s) = map_of (files w) (mFileDestination s)"
    and "map_of (files w1) (mFileDestination s) = None"
proof -
  from assms show "currentDate (fst (snd (renameFileIfFull s w))) = dateOf (now (elapse w1))"
    by (simp add: renameFileIfFull_cases)
  from assms show "files (snd (snd (renameFileIfFull s w))) = files w1"
    by (simp add: renameFileIfFull_cases zipFileCustom_keeps elapse_keeps)
  from assms(2) show "map_of (files w1) (newNameOf s) = map_of (files w) (mFileDestination s)"
    by (auto simp: renameFile_def split: option.splits if_splits)
  from assms(2) show "map_of (files w1) (mFileDestination s) = None"
    by (auto simp: renameFile_def map_of_filter_fst fileExists_def
        split: option.splits if_splits)
qed

text \<open>
  Claim C2. The date is inserted four characters before the end of the path, so with the
  destination \<open>logs/app.json\<close> the rotated file is \<open>logs/app._2024_01_01json\<close>, where the
  claim has \<open>logs/app_2024_01_01.json\<close>.
\<close>

theorem renameFileIfFull_long_extension:
  "currentDate jsonWriter \<noteq> dateOf (now jsonWorld)
   \<and> files jsonWorld = [(''logs/app.json'', ''old'' @ [CHR 0x0A])]
   \<and> files (snd (snd (renameFileIfFull jsonWriter jsonWorld)))
       = [(''logs/app._2024_01_01json'', ''old'' @ [CHR 0x0A])]"
  by (simp add: jsonWriter_def jsonWorld_def exampleWriter_def exampleWorld_def
      renameFileIfFull_def dateRotation_def newNameOf_def insertAt_def dateSuffix_def pad_def
      dec.simps digit_def renameFile_def fileExists_def zipFileCustom_def dateOf_def Let_def
      elapse_def)

end
